theory Spec2Isabelle
  imports Main "HOL-Library.Sublist"
begin

section \<open>Python values used by github_crypto_monitor.py\<close>

text \<open>
  A Python \<open>str\<close> is a sequence of Unicode code points: \<open>len\<close>, slicing and the
  regular expression engine all count code points. A code point is a natural number
  here, and an ASCII literal of the source is written \<open>ustr ''...''\<close>.
\<close>

type_synonym ustring = "nat list"

definition ustr :: "string \<Rightarrow> ustring" where
  "ustr s = map of_char s"

text \<open>
  The exception classes the program can meet, all of them subclasses of \<open>Exception\<close>.
  \<open>ConnectionError\<close>, \<open>Timeout\<close>, \<open>HTTPError\<close> and the \<open>JSONDecodeError\<close> of the
  requests library (2.27 and later) derive from \<open>requests.RequestException\<close>.
\<close>

datatype exn =
    ConnectionError | Timeout | HTTPError | JSONDecodeError
  | IndexError | KeyError | AttributeError | TypeError | RuntimeError | TelegramError

fun is_RequestException :: "exn \<Rightarrow> bool" where
  "is_RequestException ConnectionError = True"
| "is_RequestException Timeout = True"
| "is_RequestException HTTPError = True"
| "is_RequestException JSONDecodeError = True"
| "is_RequestException _ = False"

text \<open>\<open>xs[0]\<close> raises IndexError on an empty list.\<close>

fun index0 :: "'a list \<Rightarrow> exn + 'a" where
  "index0 [] = Inl IndexError"
| "index0 (x # _) = Inr x"

text \<open>\<open>d[k]\<close> on a dict, kept as an association list, raises KeyError on a missing key.\<close>

definition getitem :: "('k \<times> 'v) list \<Rightarrow> 'k \<Rightarrow> exn + 'v" where
  "getitem d k = (case map_of d k of None \<Rightarrow> Inl KeyError | Some v \<Rightarrow> Inr v)"

text \<open>\<open>w in s\<close> on strings: \<open>w\<close> occurs in \<open>s\<close> as a contiguous substring.\<close>

fun str_contains :: "ustring \<Rightarrow> ustring \<Rightarrow> bool" where
  "str_contains w [] = (w = [])"
| "str_contains w (c # cs) = (prefix w (c # cs) \<or> str_contains w cs)"

text \<open>
  \<open>str.isspace\<close> on one code point: the 29 code points Python treats as whitespace,
  which are the separators of \<open>str.split()\<close> without arguments.
\<close>

definition py_isspace :: "nat \<Rightarrow> bool" where
  "py_isspace c \<longleftrightarrow>
     (9 \<le> c \<and> c \<le> 13) \<or> (28 \<le> c \<and> c \<le> 32) \<or> c = 133 \<or> c = 160 \<or> c = 5760
     \<or> (8192 \<le> c \<and> c \<le> 8202) \<or> c = 8232 \<or> c = 8233 \<or> c = 8239 \<or> c = 8287
     \<or> c = 12288"

text \<open>
  \<open>text.split()\<close>: the maximal runs of non-whitespace, in order; \<open>w\<close> is the word
  being read.
\<close>

fun split_from :: "ustring \<Rightarrow> ustring \<Rightarrow> ustring list" where
  "split_from w [] = (if w = [] then [] else [w])"
| "split_from w (c # cs) =
     (if py_isspace c then (if w = [] then split_from [] cs else w # split_from [] cs)
      else split_from (w @ [c]) cs)"

definition py_split :: "ustring \<Rightarrow> ustring list" where
  "py_split s = split_from [] s"

text \<open>
  \<open>str.lower\<close> is Python's Unicode case mapping, which the functions below take as a
  parameter \<open>lower\<close>. On ASCII text it is this function.
\<close>

definition lower_ascii :: "ustring \<Rightarrow> ustring" where
  "lower_ascii s = map (\<lambda>c. if 65 \<le> c \<and> c \<le> 90 then c + 32 else c) s"

section \<open>summarize_text\<close>

text \<open>
  The keyword arguments of the call \<open>summarizer(text, max_length=..., min_length=...,
  do_sample=False)\<close>, computed by lines 43 to 45. \<open>input_length - 1\<close> is \<open>-1\<close> on a text
  without words, so the arithmetic is over \<open>int\<close>.
\<close>

record summarizer_args =
  arg_text :: ustring
  max_length :: int
  min_length :: int
  do_sample :: bool

definition input_length :: "ustring \<Rightarrow> int" where
  "input_length text = int (length (py_split text))"

definition summarizer_call :: "ustring \<Rightarrow> summarizer_args" where
  "summarizer_call text =
     (let max_len = min 50 (max 10 (input_length text - 1));
          min_len = max 5 (max_len div 2)
      in \<lparr>arg_text = text, max_length = max_len, min_length = min_len, do_sample = False\<rparr>)"

text \<open>
  The summarization pipeline is an external model: it raises, or returns a list of
  dicts from which line 49 reads \<open>summary[0]["summary_text"]\<close>. \<open>summarizer_try\<close> is
  the body of the \<open>try\<close>; whatever it raises ends in the fallback \<open>text[:200]\<close>.
\<close>

type_synonym summarizer = "summarizer_args \<Rightarrow> exn + (ustring \<times> ustring) list list"

definition summarizer_try :: "summarizer \<Rightarrow> ustring \<Rightarrow> exn + ustring" where
  "summarizer_try summarizer text =
     (case summarizer (summarizer_call text) of
        Inl e \<Rightarrow> Inl e
      | Inr summary \<Rightarrow>
          (case index0 summary of
             Inl e \<Rightarrow> Inl e
           | Inr d \<Rightarrow> getitem d (ustr ''summary_text'')))"

definition summarize_text :: "summarizer \<Rightarrow> ustring \<Rightarrow> ustring" where
  "summarize_text summarizer text =
     (case summarizer_try summarizer text of
        Inr s \<Rightarrow> s
      | Inl e \<Rightarrow> take 200 text)"

text \<open>
  The bounds of the specification, in its words: \<open>clamp(x, lo, hi)\<close> brings \<open>x\<close> into
  the interval from \<open>lo\<close> to \<open>hi\<close>.
\<close>

definition spec_clamp :: "int \<Rightarrow> int \<Rightarrow> int \<Rightarrow> int" where
  "spec_clamp x lo hi = (if x < lo then lo else if hi < x then hi else x)"

section \<open>analyze_commit\<close>

text \<open>One entry of a commit's \<open>files\<close> list: the two keys the program reads.\<close>

record changed_file =
  filename :: ustring
  status :: ustring

definition bullish_terms :: "ustring list" where
  "bullish_terms = map ustr [''scaling'', ''upgrade'', ''performance'', ''optimization'',
     ''security'', ''merge'', ''enhancement'', ''feature'']"

definition bearish_terms :: "ustring list" where
  "bearish_terms = map ustr [''bug'', ''deprecated'', ''reverted'', ''removed'', ''issue'',
     ''vulnerability'', ''rollback'', ''fix'']"

text \<open>The three labels end in an emoji: U+1F4C8, U+1F4C9, and U+2696 U+FE0F.\<close>

definition label_bullish :: ustring where
  "label_bullish = ustr ''Bullish '' @ [0x1F4C8]"

definition label_bearish :: ustring where
  "label_bearish = ustr ''Bearish '' @ [0x1F4C9]"

definition label_neutral :: ustring where
  "label_neutral = ustr ''Neutral '' @ [0x2696, 0xFE0F]"

definition explanation_bullish :: ustring where
  "explanation_bullish = ustr ''New features or optimizations detected.''"

definition explanation_bearish :: ustring where
  "explanation_bearish = ustr ''Bug fixes, deprecations, or rollbacks detected.''"

definition explanation_neutral :: ustring where
  "explanation_neutral = ustr ''No strong indicators found.''"

text \<open>
  \<open>polarity\<close> is TextBlob's sentiment polarity of the message (line 57): computed and
  not used. The result is the triple (summary, sentiment_label, explanation).
\<close>

definition analyze_commit ::
  "(ustring \<Rightarrow> ustring) \<Rightarrow> (ustring \<Rightarrow> 'p) \<Rightarrow> summarizer \<Rightarrow> ustring \<Rightarrow> changed_file list
     \<Rightarrow> ustring \<times> ustring \<times> ustring" where
  "analyze_commit lower polarity summarizer commit_message commit_files =
     (let summary = summarize_text summarizer commit_message;
          sentiment = polarity commit_message;
          added_files = map filename (filter (\<lambda>f. status f = ustr ''added'') commit_files);
          removed_files = map filename (filter (\<lambda>f. status f = ustr ''removed'') commit_files)
      in if list_ex (\<lambda>word. str_contains word (lower commit_message)) bullish_terms
            \<or> added_files \<noteq> []
         then (summary, label_bullish, explanation_bullish)
         else if list_ex (\<lambda>word. str_contains word (lower commit_message)) bearish_terms
            \<or> removed_files \<noteq> []
         then (summary, label_bearish, explanation_bearish)
         else (summary, label_neutral, explanation_neutral))"

text \<open>
  The decision of the specification, in its words: the two keyword sets, matching by
  substring on the lowercased message, the bullish test before the bearish one, and
  the label and the rationale of each outcome written out as strings (the label is the
  word of the specification followed by the emoji the program prints).
\<close>

definition spec_bullish_keywords :: "ustring set" where
  "spec_bullish_keywords = ustr ` {''scaling'', ''upgrade'', ''performance'', ''optimization'',
     ''security'', ''merge'', ''enhancement'', ''feature''}"

definition spec_bearish_keywords :: "ustring set" where
  "spec_bearish_keywords = ustr ` {''bug'', ''deprecated'', ''reverted'', ''removed'', ''issue'',
     ''vulnerability'', ''rollback'', ''fix''}"

definition spec_classify :: "ustring \<Rightarrow> changed_file list \<Rightarrow> ustring \<times> ustring" where
  "spec_classify lowered files =
     (if (\<exists>k \<in> spec_bullish_keywords. sublist k lowered)
           \<or> (\<exists>f \<in> set files. status f = ustr ''added'')
      then (ustr ''Bullish '' @ [0x1F4C8], ustr ''New features or optimizations detected.'')
      else if (\<exists>k \<in> spec_bearish_keywords. sublist k lowered)
           \<or> (\<exists>f \<in> set files. status f = ustr ''removed'')
      then (ustr ''Bearish '' @ [0x1F4C9],
            ustr ''Bug fixes, deprecations, or rollbacks detected.'')
      else (ustr ''Neutral '' @ [0x2696, 0xFE0F], ustr ''No strong indicators found.''))"

section \<open>escape_markdown and send_telegram_message\<close>

text \<open>
  The pattern of line 82 is one character class. Inside it \<open>\]\<close>, \<open>\+\<close> and \<open>\-\<close> are
  the regular expression's own escapes of \<open>]\<close>, \<open>+\<close> and \<open>-\<close>, so the class has these 18
  members; the backslash (code point 92) is not one of them.
\<close>

definition backslash :: nat where
  "backslash = 92"

definition escape_chars :: "nat list" where
  "escape_chars = [95, 42, 91, 93, 40, 41, 126, 96, 62, 35, 43, 45, 61, 124, 123, 125, 46, 33]"

text \<open>
  \<open>re.sub(pattern, repl, text)\<close> for a pattern that is a character class: the scan goes
  left to right, a character of the class is a match and is replaced by \<open>repl\<close> of the
  match, any other character is copied.
\<close>

fun re_sub_class :: "nat list \<Rightarrow> (ustring \<Rightarrow> ustring) \<Rightarrow> ustring \<Rightarrow> ustring" where
  "re_sub_class cls repl [] = []"
| "re_sub_class cls repl (c # cs) =
     (if c \<in> set cls then repl [c] else [c]) @ re_sub_class cls repl cs"

text \<open>The replacement template of line 83 is a backslash followed by the whole match.\<close>

definition escape_markdown :: "ustring \<Rightarrow> ustring" where
  "escape_markdown text = re_sub_class escape_chars (\<lambda>m. backslash # m) text"

text \<open>
  The escaping of the specification, in its words: every control character is prefixed
  with one escape marker, and so is an escape marker that comes with the input.
\<close>

definition spec_escape :: "ustring \<Rightarrow> ustring" where
  "spec_escape text =
     concat (map (\<lambda>c. if c \<in> set escape_chars \<or> c = backslash then [backslash, c] else [c])
       text)"

text \<open>
  \<open>range(start, stop, step)\<close> for a positive step (the source's step is the constant
  4000), and the slice \<open>s[i:j]\<close> for indices that are not negative.
\<close>

function py_range :: "nat \<Rightarrow> nat \<Rightarrow> nat \<Rightarrow> nat list" where
  "py_range i stop step =
     (if 0 < step \<and> i < stop then i # py_range (i + step) stop step else [])"
  by pat_completeness auto
termination
  by (relation "measure (\<lambda>(i, stop, step). stop - i)") auto

declare py_range.simps [simp del]

definition py_slice :: "'a list \<Rightarrow> nat \<Rightarrow> nat \<Rightarrow> 'a list" where
  "py_slice s i j = take (j - i) (drop i s)"

definition chunks :: "ustring \<Rightarrow> ustring list" where
  "chunks safe_message =
     map (\<lambda>i. py_slice safe_message i (i + 4000)) (py_range 0 (length safe_message) 4000)"

text \<open>
  The sends, the sleeps and the errors logged by lines 95 and 137, in order.
  \<open>bot_call k\<close> is the outcome of the
  \<open>k\<close>-th call of \<open>bot.send_message\<close> in one delivery: \<open>None\<close> when it succeeds,
  the exception otherwise, which line 94 catches and logs.
\<close>

datatype effect = SendMessage ustring | Sleep nat | LogError exn

fun send_chunks :: "(nat \<Rightarrow> exn option) \<Rightarrow> nat \<Rightarrow> ustring list \<Rightarrow> effect list" where
  "send_chunks bot_call k [] = []"
| "send_chunks bot_call k (chunk # rest) =
     SendMessage chunk # (case bot_call k of None \<Rightarrow> [Sleep 1] | Some e \<Rightarrow> [LogError e])
       @ send_chunks bot_call (Suc k) rest"

definition send_telegram_message :: "(nat \<Rightarrow> exn option) \<Rightarrow> ustring \<Rightarrow> effect list" where
  "send_telegram_message bot_call message =
     (let safe_message = escape_markdown message
      in send_chunks bot_call 0 (chunks safe_message))"

text \<open>The text of every \<open>bot.send_message\<close> call, in the order of the calls.\<close>

fun sent_texts :: "effect list \<Rightarrow> ustring list" where
  "sent_texts [] = []"
| "sent_texts (SendMessage t # es) = t # sent_texts es"
| "sent_texts (_ # es) = sent_texts es"

section \<open>get_latest_commit\<close>

text \<open>
  The remote service's answer to a request is an input of the model: no response at
  all (\<open>requests.get\<close> raises), or a response with a status code and a body. A body is
  not JSON, or a JSON array of commit objects, or a JSON object, of which the program
  reads the key \<open>files\<close> only. A commit object has the keys of the commit API that
  the program reads: \<open>sha\<close>, \<open>commit.message\<close>, \<open>html_url\<close> and \<open>url\<close>.
\<close>

record commit =
  c_sha :: ustring
  c_message :: ustring
  c_html_url :: ustring
  c_url :: ustring

datatype json = JsonArray "commit list" | JsonObject "changed_file list option"

datatype net_failure = ConnectionFailed | TimedOut

datatype answer = NoResponse net_failure | Response nat "json option"

definition and_then :: "exn + 'a \<Rightarrow> ('a \<Rightarrow> exn + 'b) \<Rightarrow> exn + 'b" where
  "and_then r f = (case r of Inl e \<Rightarrow> Inl e | Inr x \<Rightarrow> f x)"

fun requests_get :: "answer \<Rightarrow> exn + nat \<times> json option" where
  "requests_get (NoResponse ConnectionFailed) = Inl ConnectionError"
| "requests_get (NoResponse TimedOut) = Inl Timeout"
| "requests_get (Response status_code body) = Inr (status_code, body)"

definition raise_for_status :: "nat \<times> json option \<Rightarrow> exn + nat \<times> json option" where
  "raise_for_status response =
     (if 400 \<le> fst response \<and> fst response < 600 then Inl HTTPError else Inr response)"

definition response_json :: "nat \<times> json option \<Rightarrow> exn + json" where
  "response_json response =
     (case snd response of None \<Rightarrow> Inl JSONDecodeError | Some j \<Rightarrow> Inr j)"

text \<open>\<open>j[0]\<close>: the first element of an array; a dict has no key \<open>0\<close>.\<close>

fun subscript0 :: "json \<Rightarrow> exn + commit" where
  "subscript0 (JsonArray cs) = index0 cs"
| "subscript0 (JsonObject _) = Inl KeyError"

text \<open>
  \<open>Inl e\<close>: the exception \<open>e\<close> leaves the function. \<open>Inr None\<close>: it returns \<open>None\<close>.
  \<open>Inr (Some c)\<close>: it returns the commit \<open>c\<close>.
\<close>

definition get_latest_commit :: "answer \<Rightarrow> exn + commit option" where
  "get_latest_commit a =
     (case and_then (and_then (and_then (requests_get a) raise_for_status) response_json)
             subscript0 of
        Inr c \<Rightarrow> Inr (Some c)
      | Inl e \<Rightarrow> if is_RequestException e then Inr None else Inl e)"

section \<open>track_repos\<close>

text \<open>
  \<open>last_commits\<close> maps a repository to the last sha recorded for it. Line 115 is the
  test \<open>is_new\<close>, line 116 the update \<open>record_sha\<close>. A sha is a string, so the \<open>None\<close>
  that \<open>last_commits.get(repo)\<close> returns for a missing key differs from every sha.
\<close>

type_synonym tracker = "ustring \<rightharpoonup> ustring"

definition is_new :: "tracker \<Rightarrow> ustring \<Rightarrow> ustring \<Rightarrow> bool" where
  "is_new last_commits repo commit_sha \<longleftrightarrow> last_commits repo \<noteq> Some commit_sha"

definition record_sha :: "tracker \<Rightarrow> ustring \<Rightarrow> ustring \<Rightarrow> tracker" where
  "record_sha last_commits repo commit_sha = last_commits(repo \<mapsto> commit_sha)"

text \<open>
  Lines 112 and 113: the detail request has no \<open>try\<close> around it and no
  \<open>raise_for_status\<close>; \<open>.get("files", [])\<close> is a method of a dict only.
\<close>

fun details_get_files :: "json \<Rightarrow> exn + changed_file list" where
  "details_get_files (JsonObject None) = Inr []"
| "details_get_files (JsonObject (Some fs)) = Inr fs"
| "details_get_files (JsonArray _) = Inl AttributeError"

definition commit_files_of :: "answer \<Rightarrow> exn + changed_file list" where
  "commit_files_of a = and_then (and_then (requests_get a) response_json) details_get_files"

text \<open>The f-string of lines 119 to 125; the emoji are single code points.\<close>

definition format_message ::
  "ustring \<Rightarrow> ustring \<Rightarrow> ustring \<Rightarrow> ustring \<Rightarrow> ustring \<Rightarrow> ustring" where
  "format_message repo summary sentiment explanation commit_url =
     [0x1F514] @ ustr '' **'' @ repo @ ustr '' Update**'' @ [10]
     @ [0x1F4DD] @ ustr '' '' @ summary @ [10]
     @ [0x1F4CA] @ ustr '' Sentiment: '' @ sentiment @ [10]
     @ [0x1F9D0] @ ustr '' Reason: '' @ explanation @ [10]
     @ [0x1F517] @ ustr '' [View Commit]('' @ commit_url @ ustr '')''"

text \<open>
  A message of the batch, kept together with the repository and the sha it was built
  for (the text itself does not hold the sha).
\<close>

record notification =
  n_repo :: ustring
  n_sha :: ustring
  n_text :: ustring

text \<open>What the remote service answers during one pass of the \<open>for\<close> loop body.\<close>

record visit =
  commits_answer :: answer
  details_answer :: answer

text \<open>
  The body of the \<open>for\<close> loop, lines 103 to 125, on the pair (last_commits, messages).
  A commit object has keys, so \<open>if commit:\<close> fails for \<open>None\<close> only. \<open>Inl e\<close>: the
  exception \<open>e\<close> leaves the body, before any update.
\<close>

definition visit_repo ::
  "(ustring \<Rightarrow> ustring) \<Rightarrow> (ustring \<Rightarrow> 'p) \<Rightarrow> summarizer \<Rightarrow> ustring \<Rightarrow> visit
     \<Rightarrow> tracker \<times> notification list \<Rightarrow> exn + tracker \<times> notification list" where
  "visit_repo lower polarity summarizer repo v st =
     and_then (get_latest_commit (commits_answer v)) (\<lambda>latest.
       case latest of
         None \<Rightarrow> Inr st
       | Some c \<Rightarrow>
           and_then (commit_files_of (details_answer v)) (\<lambda>commit_files.
             if is_new (fst st) repo (c_sha c) then
               (case analyze_commit lower polarity summarizer (c_message c) commit_files of
                  (summary, sentiment, explanation) \<Rightarrow>
                    Inr (record_sha (fst st) repo (c_sha c),
                         snd st @ [\<lparr>n_repo = repo, n_sha = c_sha c,
                           n_text = format_message repo summary sentiment explanation
                             (c_html_url c)\<rparr>]))
             else Inr st))"

text \<open>
  The \<open>for\<close> loop over the repositories, each with the answers it meets. An exception
  ends the loop; \<open>last_commits\<close> is a global, so what was recorded before stays.
\<close>

fun process_repos ::
  "(ustring \<Rightarrow> ustring) \<Rightarrow> (ustring \<Rightarrow> 'p) \<Rightarrow> summarizer \<Rightarrow> (ustring \<times> visit) list
     \<Rightarrow> tracker \<times> notification list \<Rightarrow> (tracker \<times> notification list) \<times> exn option" where
  "process_repos lower polarity summarizer [] st = (st, None)"
| "process_repos lower polarity summarizer ((repo, v) # rest) st =
     (case visit_repo lower polarity summarizer repo v st of
        Inl e \<Rightarrow> (st, Some e)
      | Inr st' \<Rightarrow> process_repos lower polarity summarizer rest st')"

text \<open>\<open>sep.join(xs)\<close>.\<close>

fun py_join :: "ustring \<Rightarrow> ustring list \<Rightarrow> ustring" where
  "py_join sep [] = []"
| "py_join sep [x] = x"
| "py_join sep (x # y # ys) = x @ sep @ py_join sep (y # ys)"

text \<open>
  One pass of the \<open>while True\<close> loop of \<open>track_repos\<close>, from \<open>messages = []\<close> to the
  sleep. \<open>answers i\<close> is what the \<open>i\<close>-th entry of \<open>REPOS\<close> meets in this pass.
  When an exception leaves the pass, the wrapper of lines 133 to 138 logs it, sleeps
  10 seconds and starts \<open>track_repos\<close> again: the next pass, with the same
  \<open>last_commits\<close>.
\<close>

record cycle_env =
  answers :: "nat \<Rightarrow> visit"
  bot_outcome :: "nat \<Rightarrow> exn option"

record cycle_result =
  tracker_after :: tracker
  batch :: "notification list"
  raised :: "exn option"
  effects :: "effect list"

definition poll_cycle ::
  "(ustring \<Rightarrow> ustring) \<Rightarrow> (ustring \<Rightarrow> 'p) \<Rightarrow> summarizer \<Rightarrow> ustring list \<Rightarrow> cycle_env
     \<Rightarrow> tracker \<Rightarrow> cycle_result" where
  "poll_cycle lower polarity summarizer REPOS env last_commits =
     (case process_repos lower polarity summarizer
             (zip REPOS (map (answers env) [0..<length REPOS])) (last_commits, []) of
        ((lc, messages), Some e) \<Rightarrow>
          \<lparr>tracker_after = lc, batch = messages, raised = Some e,
           effects = [LogError e, Sleep 10]\<rparr>
      | ((lc, messages), None) \<Rightarrow>
          \<lparr>tracker_after = lc, batch = messages, raised = None,
           effects =
             (if messages \<noteq> []
              then send_telegram_message (bot_outcome env)
                     (py_join [10, 10] (map n_text messages))
              else []) @ [Sleep 300]\<rparr>)"

text \<open>
  The first passes of a run that never ends, one per element of \<open>envs\<close>: the tracker
  after them, and every notification appended to a batch so far, in order.
\<close>

fun track_repos ::
  "(ustring \<Rightarrow> ustring) \<Rightarrow> (ustring \<Rightarrow> 'p) \<Rightarrow> summarizer \<Rightarrow> ustring list \<Rightarrow> cycle_env list
     \<Rightarrow> tracker \<Rightarrow> tracker \<times> notification list" where
  "track_repos lower polarity summarizer REPOS [] last_commits = (last_commits, [])"
| "track_repos lower polarity summarizer REPOS (env # envs) last_commits =
     (let r = poll_cycle lower polarity summarizer REPOS env last_commits;
          (lc, later) = track_repos lower polarity summarizer REPOS envs (tracker_after r)
      in (lc, batch r @ later))"

text \<open>The shas notified for one repository, in the order of the notifications.\<close>

definition shas_for :: "ustring \<Rightarrow> notification list \<Rightarrow> ustring list" where
  "shas_for repo ns = map n_sha (filter (\<lambda>n. n_repo n = repo) ns)"

text \<open>The (repository, sha) pairs of a list of notifications, in order.\<close>

definition notified_pairs :: "notification list \<Rightarrow> (ustring \<times> ustring) list" where
  "notified_pairs ns = map (\<lambda>n. (n_repo n, n_sha n)) ns"

text \<open>
  The invariant of the loop, for the tracker and the notifications appended so far: the
  shas notified for a repository never repeat consecutively, and the tracker holds the
  last of them.
\<close>

definition tracked :: "tracker \<Rightarrow> notification list \<Rightarrow> bool" where
  "tracked lc ns \<longleftrightarrow>
     (\<forall>repo. distinct_adj (shas_for repo ns)
        \<and> (shas_for repo ns \<noteq> [] \<longrightarrow> lc repo = Some (last (shas_for repo ns))))"

text \<open>
  The answers of the end-to-end scenario of the specification: the latest commit of
  \<open>a/b\<close> has sha \<open>s\<close> and the message "fix vulnerability in parser", and its detail
  lists no changed file.
\<close>

definition commit_with_sha :: "ustring \<Rightarrow> visit" where
  "commit_with_sha s =
     \<lparr>commits_answer = Response 200 (Some (JsonArray
        [\<lparr>c_sha = s, c_message = ustr ''fix vulnerability in parser'',
          c_html_url = ustr ''https://github.com/a/b/commit/'' @ s,
          c_url = ustr ''https://api.github.com/repos/a/b/commits/'' @ s\<rparr>])),
      details_answer = Response 200 (Some (JsonObject (Some [])))\<rparr>"

section \<open>Properties of the classifier and the summarizer\<close>

lemma str_contains_sublist: "str_contains w s \<longleftrightarrow> sublist w s"
  by (induction s) (auto simp: sublist_Cons_right)

lemma bullish_terms_set: "set bullish_terms = spec_bullish_keywords"
  by (simp add: bullish_terms_def spec_bullish_keywords_def)

lemma bearish_terms_set: "set bearish_terms = spec_bearish_keywords"
  by (simp add: bearish_terms_def spec_bearish_keywords_def)

text \<open>
  C1. For every message and every list of changed files, \<open>analyze_commit\<close> decides in
  this order: a bullish keyword occurs in the lowercased message as a substring, or a
  file has status \<open>added\<close>: Bullish, "New features or optimizations detected.";
  otherwise a bearish keyword occurs or a file has status \<open>removed\<close>: Bearish, "Bug
  fixes, deprecations, or rollbacks detected."; otherwise Neutral, "No strong indicators
  found.". A file with status \<open>added\<close> gives Bullish whatever the message says.
\<close>

theorem analyze_commit_decision:
  "analyze_commit lower polarity summarizer commit_message commit_files =
     (summarize_text summarizer commit_message,
      spec_classify (lower commit_message) commit_files)
   \<and> ((\<exists>f \<in> set commit_files. status f = ustr ''added'') \<longrightarrow>
        snd (analyze_commit lower polarity summarizer commit_message commit_files)
          = (ustr ''Bullish '' @ [0x1F4C8], ustr ''New features or optimizations detected.''))"
proof -
  have kw: "list_ex (\<lambda>word. str_contains word l) ts \<longleftrightarrow> (\<exists>k \<in> set ts. sublist k l)"
    for l ts
    by (simp add: list_ex_iff str_contains_sublist)
  have fs: "map filename (filter (\<lambda>f. status f = s) commit_files) \<noteq> []
      \<longleftrightarrow> (\<exists>f \<in> set commit_files. status f = s)" for s
    by (simp add: filter_empty_conv)
  have eq: "analyze_commit lower polarity summarizer commit_message commit_files =
     (summarize_text summarizer commit_message,
      spec_classify (lower commit_message) commit_files)"
    unfolding analyze_commit_def spec_classify_def Let_def kw fs
      bullish_terms_set bearish_terms_set
      label_bullish_def label_bearish_def label_neutral_def
      explanation_bullish_def explanation_bearish_def explanation_neutral_def
    by simp
  show ?thesis
    unfolding eq by (simp add: spec_classify_def)
qed

text \<open>
  The decision at three messages, with the strings returned written out: bearish
  keywords beside an added file (Bullish); "fix" inside "PREFIX", in upper case, and no
  file (Bearish); no keyword and a modified file (Neutral). The summarizer fails in all
  three, so the summary is the message.
\<close>

theorem analyze_commit_decision_witness:
  "analyze_commit lower_ascii (\<lambda>m. ()) (\<lambda>a. Inl RuntimeError) (ustr ''Fix the rollback bug'')
      [\<lparr>filename = ustr ''a.py'', status = ustr ''added''\<rparr>]
     = (ustr ''Fix the rollback bug'', ustr ''Bullish '' @ [0x1F4C8],
        ustr ''New features or optimizations detected.'')
   \<and> analyze_commit lower_ascii (\<lambda>m. ()) (\<lambda>a. Inl RuntimeError) (ustr ''Update PREFIX table'') []
     = (ustr ''Update PREFIX table'', ustr ''Bearish '' @ [0x1F4C9],
        ustr ''Bug fixes, deprecations, or rollbacks detected.'')
   \<and> analyze_commit lower_ascii (\<lambda>m. ()) (\<lambda>a. Inl RuntimeError) (ustr ''Update docs'')
      [\<lparr>filename = ustr ''README'', status = ustr ''modified''\<rparr>]
     = (ustr ''Update docs'', ustr ''Neutral '' @ [0x2696, 0xFE0F],
        ustr ''No strong indicators found.'')"
  using analyze_commit_decision [of lower_ascii "\<lambda>m. ()" "\<lambda>a. Inl RuntimeError"
      "ustr ''Fix the rollback bug''" "[\<lparr>filename = ustr ''a.py'', status = ustr ''added''\<rparr>]"]
    analyze_commit_decision [of lower_ascii "\<lambda>m. ()" "\<lambda>a. Inl RuntimeError"
      "ustr ''Update PREFIX table''" "[]"]
    analyze_commit_decision [of lower_ascii "\<lambda>m. ()" "\<lambda>a. Inl RuntimeError"
      "ustr ''Update docs''" "[\<lparr>filename = ustr ''README'', status = ustr ''modified''\<rparr>]"]
  by (simp add: spec_classify_def summarize_text_def summarizer_try_def
      str_contains_sublist [symmetric] bullish_terms_set [symmetric]
      bearish_terms_set [symmetric] bullish_terms_def bearish_terms_def
      lower_ascii_def ustr_def)

text \<open>The words and the bounds of the scenario's message.\<close>

lemma summarizer_call_example:
  "py_split (ustr '' fix  vulnerability in parser '')
     = [ustr ''fix'', ustr ''vulnerability'', ustr ''in'', ustr ''parser'']
   \<and> summarizer_call (ustr ''fix vulnerability in parser'')
     = \<lparr>arg_text = ustr ''fix vulnerability in parser'', max_length = 10, min_length = 5,
        do_sample = False\<rparr>"
  by (simp add: py_split_def py_isspace_def summarizer_call_def input_length_def ustr_def)

lemma summarize_text_try_fails:
  "summarizer_try summarizer text = Inl e \<Longrightarrow> summarize_text summarizer text = take 200 text"
  by (simp add: summarize_text_def)

text \<open>
  C3. Whenever the summarizer call raises, \<open>summarize_text\<close> returns the first 200
  characters of the text: the whole text when it has at most 200 characters, and never
  the empty string for a text that is not empty.
\<close>

theorem summarize_text_fallback:
  assumes "summarizer (summarizer_call text) = Inl e"
  shows "summarize_text summarizer text = take 200 text
    \<and> length (summarize_text summarizer text) = min 200 (length text)
    \<and> (length text \<le> 200 \<longrightarrow> summarize_text summarizer text = text)
    \<and> (text \<noteq> [] \<longrightarrow> summarize_text summarizer text \<noteq> [])"
proof -
  have "summarizer_try summarizer text = Inl e"
    using assms by (simp add: summarizer_try_def)
  then have "summarize_text summarizer text = take 200 text"
    by (rule summarize_text_try_fails)
  then show ?thesis by (auto simp: min_def)
qed

theorem summarize_text_fallback_witness:
  "summarize_text (\<lambda>a. Inl RuntimeError) (ustr ''fix parser'') = ustr ''fix parser''
   \<and> summarize_text (\<lambda>a. Inl RuntimeError) (replicate 250 97) = replicate 200 97"
  using summarize_text_fallback [of "\<lambda>a. Inl RuntimeError" "ustr ''fix parser''" RuntimeError]
    summarize_text_fallback [of "\<lambda>a. Inl RuntimeError" "replicate 250 97" RuntimeError]
  by (simp add: ustr_def)

text \<open>
  \<open>text.split()\<close> gives back the words of a text that was made of words without
  whitespace, joined by single spaces.
\<close>

lemma split_from_word:
  "\<forall>c \<in> set w. \<not> py_isspace c \<Longrightarrow> split_from acc (w @ rest) = split_from (acc @ w) rest"
  by (induction w arbitrary: acc) simp_all

lemma py_split_join_words:
  assumes "\<forall>w \<in> set ws. w \<noteq> [] \<and> (\<forall>c \<in> set w. \<not> py_isspace c)"
  shows "py_split (py_join [32] ws) = ws"
  unfolding py_split_def using assms
proof (induction "[32::nat]" ws rule: py_join.induct)
  case 1
  then show ?case by simp
next
  case (2 x)
  then have "split_from [] (x @ []) = split_from ([] @ x) []"
    by (intro split_from_word) simp
  with 2 show ?case by simp
next
  case (3 x y ys)
  then have "split_from [] (x @ ([32] @ py_join [32] (y # ys)))
      = split_from ([] @ x) ([32] @ py_join [32] (y # ys))"
    by (intro split_from_word) simp
  moreover have "py_isspace 32"
    by (simp add: py_isspace_def)
  ultimately show ?case
    using 3 by simp
qed

text \<open>
  C8. The bounds passed to the summarizer are \<open>max_length = clamp(word_count - 1, 10,
  50) = min(50, max(10, word_count - 1))\<close> and \<open>min_length = max(5, max_length // 2)\<close>,
  over the integers, where \<open>word_count\<close> is the number of words \<open>text.split()\<close> finds:
  for words joined by single spaces, the number of these words. So
  \<open>5 \<le> min_length \<le> max_length \<le> 50\<close> and \<open>10 \<le> max_length\<close>.
\<close>

theorem summarizer_bounds:
  "input_length text = int (length (py_split text)) \<and>
   ((\<forall>w \<in> set ws. w \<noteq> [] \<and> (\<forall>c \<in> set w. \<not> py_isspace c)) \<longrightarrow>
      input_length (py_join [32] ws) = int (length ws)) \<and>
   max_length (summarizer_call text) = spec_clamp (input_length text - 1) 10 50 \<and>
   max_length (summarizer_call text) = min 50 (max 10 (input_length text - 1)) \<and>
   min_length (summarizer_call text) = max 5 (max_length (summarizer_call text) div 2) \<and>
   5 \<le> min_length (summarizer_call text) \<and>
   min_length (summarizer_call text) \<le> max_length (summarizer_call text) \<and>
   max_length (summarizer_call text) \<le> 50 \<and>
   10 \<le> max_length (summarizer_call text)"
proof -
  have words: "(\<forall>w \<in> set ws. w \<noteq> [] \<and> (\<forall>c \<in> set w. \<not> py_isspace c)) \<longrightarrow>
      input_length (py_join [32] ws) = int (length ws)"
    by (simp add: input_length_def py_split_join_words)
  have bounds: "max_length (summarizer_call text) = spec_clamp (input_length text - 1) 10 50 \<and>
   max_length (summarizer_call text) = min 50 (max 10 (input_length text - 1)) \<and>
   min_length (summarizer_call text) = max 5 (max_length (summarizer_call text) div 2) \<and>
   5 \<le> min_length (summarizer_call text) \<and>
   min_length (summarizer_call text) \<le> max_length (summarizer_call text) \<and>
   max_length (summarizer_call text) \<le> 50 \<and>
   10 \<le> max_length (summarizer_call text)"
    by (simp add: summarizer_call_def Let_def spec_clamp_def) linarith
  have count: "input_length text = int (length (py_split text))"
    by (simp add: input_length_def)
  from count words bounds show ?thesis
    by blast
qed

text \<open>
  The bounds at texts of 12, 60, 31 and 0 words: 11 and 5, 50 and 25, 30 and 15, 10
  and 5.
\<close>

theorem summarizer_bounds_witness:
  "input_length (ustr ''one two three four five six seven eight nine ten eleven twelve'') = 12
   \<and> max_length (summarizer_call
        (ustr ''one two three four five six seven eight nine ten eleven twelve'')) = 11
   \<and> min_length (summarizer_call
        (ustr ''one two three four five six seven eight nine ten eleven twelve'')) = 5
   \<and> input_length (py_join [32] (replicate 60 (ustr ''word''))) = 60
   \<and> max_length (summarizer_call (py_join [32] (replicate 60 (ustr ''word'')))) = 50
   \<and> min_length (summarizer_call (py_join [32] (replicate 60 (ustr ''word'')))) = 25
   \<and> input_length (py_join [32] (replicate 31 (ustr ''word''))) = 31
   \<and> max_length (summarizer_call (py_join [32] (replicate 31 (ustr ''word'')))) = 30
   \<and> min_length (summarizer_call (py_join [32] (replicate 31 (ustr ''word'')))) = 15
   \<and> input_length [] = 0
   \<and> max_length (summarizer_call []) = 10
   \<and> min_length (summarizer_call []) = 5"
proof -
  let ?t12 = "ustr ''one two three four five six seven eight nine ten eleven twelve''"
  let ?w12 = "map ustr [''one'', ''two'', ''three'', ''four'', ''five'', ''six'', ''seven'',
     ''eight'', ''nine'', ''ten'', ''eleven'', ''twelve'']"
  have word: "\<forall>c \<in> set (ustr ''word''). \<not> py_isspace c" "ustr ''word'' \<noteq> []"
    by (simp_all add: ustr_def py_isspace_def)
  have j12: "py_join [32] ?w12 = ?t12"
    by (simp add: ustr_def)
  have ok12: "\<forall>w \<in> set ?w12. w \<noteq> [] \<and> (\<forall>c \<in> set w. \<not> py_isspace c)"
    by (simp add: ustr_def py_isspace_def)
  have l12: "input_length ?t12 = 12"
    using summarizer_bounds [of ?t12 ?w12] ok12 unfolding j12 by simp
  have l60: "input_length (py_join [32] (replicate 60 (ustr ''word''))) = 60"
    using summarizer_bounds [of "[]" "replicate 60 (ustr ''word'')"] word by simp
  have l31: "input_length (py_join [32] (replicate 31 (ustr ''word''))) = 31"
    using summarizer_bounds [of "[]" "replicate 31 (ustr ''word'')"] word by simp
  have l0: "input_length [] = 0"
    using summarizer_bounds [of "[]" "[]", THEN conjunct2, THEN conjunct1] by simp
  show ?thesis
    using summarizer_bounds [of ?t12 "[]"]
      summarizer_bounds [of "py_join [32] (replicate 60 (ustr ''word''))" "[]"]
      summarizer_bounds [of "py_join [32] (replicate 31 (ustr ''word''))" "[]"]
      summarizer_bounds [of "[]" "[]"]
    unfolding l12 l60 l31 l0
    by (simp add: spec_clamp_def)
qed

section \<open>Properties of the change tracker\<close>

text \<open>
  C9. \<open>is_new\<close> holds iff the tracker has no entry for the repository or the stored sha
  differs from the given one. So it holds when there is no entry, fails right after
  \<open>record_sha\<close> with the same sha, and holds again for a different sha.
\<close>

theorem is_new_iff:
  "(is_new last_commits repo commit_sha \<longleftrightarrow>
      last_commits repo = None \<or> (\<exists>s. last_commits repo = Some s \<and> s \<noteq> commit_sha))
   \<and> (last_commits repo = None \<longrightarrow> is_new last_commits repo commit_sha)
   \<and> \<not> is_new (record_sha last_commits repo commit_sha) repo commit_sha
   \<and> (other_sha \<noteq> commit_sha \<longrightarrow>
        is_new (record_sha last_commits repo commit_sha) repo other_sha)"
  by (cases "last_commits repo") (auto simp: is_new_def record_sha_def)

theorem is_new_iff_witness:
  "is_new Map.empty (ustr ''a/b'') (ustr ''111'')
   \<and> \<not> is_new (record_sha Map.empty (ustr ''a/b'') (ustr ''111'')) (ustr ''a/b'') (ustr ''111'')
   \<and> is_new (record_sha Map.empty (ustr ''a/b'') (ustr ''111'')) (ustr ''a/b'') (ustr ''222'')"
  using is_new_iff [of Map.empty "ustr ''a/b''" "ustr ''111''" "ustr ''222''"]
  by (simp add: ustr_def)

section \<open>Properties of the notifier\<close>

text \<open>The members of the class, as characters.\<close>

lemma escape_chars_ascii: "escape_chars = ustr ''_*[]()~`>#+-=|{}.!''"
  by (simp add: escape_chars_def ustr_def)

lemma escape_markdown_Nil: "escape_markdown [] = []"
  by (simp add: escape_markdown_def)

lemma escape_markdown_Cons:
  "escape_markdown (c # cs) =
     (if c \<in> set escape_chars then [backslash, c] else [c]) @ escape_markdown cs"
  by (simp add: escape_markdown_def)

lemma escape_markdown_append:
  "escape_markdown (xs @ ys) = escape_markdown xs @ escape_markdown ys"
  by (induction xs) (simp_all add: escape_markdown_Nil escape_markdown_Cons)

lemma backslash_not_escaped: "backslash \<notin> set escape_chars"
  by (simp add: backslash_def escape_chars_def)

lemma escape_markdown_plain:
  "set text \<inter> set escape_chars = {} \<Longrightarrow> escape_markdown text = text"
  by (induction "text") (auto simp: escape_markdown_Nil escape_markdown_Cons)

text \<open>
  On the characters of the class \<open>escape_markdown\<close> does what the escaping asks:
  each occurrence gets exactly one backslash in front, no other character changes and
  the order is kept (the text is a subsequence of the result, which is longer by the
  number of class characters). A backslash of the text is copied as it is.
\<close>

lemma escape_markdown_class_chars:
  "escape_markdown text =
     concat (map (\<lambda>c. if c \<in> set escape_chars then [backslash, c] else [c]) text)
   \<and> subseq text (escape_markdown text)
   \<and> length (escape_markdown text) = length text + length (filter (\<lambda>c. c \<in> set escape_chars) text)
   \<and> backslash \<notin> set escape_chars
   \<and> escape_markdown (xs @ [backslash] @ ys) = escape_markdown xs @ [backslash] @ escape_markdown ys"
proof -
  have 1: "escape_markdown text =
     concat (map (\<lambda>c. if c \<in> set escape_chars then [backslash, c] else [c]) text)"
    by (induction "text") (simp_all add: escape_markdown_Nil escape_markdown_Cons)
  have 2: "subseq text (escape_markdown text)"
    by (induction "text") (auto simp: escape_markdown_Nil escape_markdown_Cons)
  have 3: "length (escape_markdown text)
      = length text + length (filter (\<lambda>c. c \<in> set escape_chars) text)"
    by (induction "text") (simp_all add: escape_markdown_Nil escape_markdown_Cons)
  have 4: "escape_markdown (xs @ [backslash] @ ys)
      = escape_markdown xs @ [backslash] @ escape_markdown ys"
    by (simp add: escape_markdown_append escape_markdown_Cons escape_markdown_Nil
        backslash_not_escaped)
  from 1 2 3 4 backslash_not_escaped show ?thesis by blast
qed

text \<open>
  C6 (the code fails the claim). The backslash is the escape marker of the markup, and
  the class of line 82 leaves it out: a backslash of the input is not escaped. A text
  that is one backslash comes back unchanged, and in backslash, underscore the
  underscore ends up behind two backslashes, not behind exactly one escape marker of
  its own after an escaped backslash, as the escaping of the specification gives.
\<close>

theorem escape_markdown_backslash_unescaped:
  "escape_markdown [backslash] = [backslash]
   \<and> spec_escape [backslash] = [backslash, backslash]
   \<and> escape_markdown [backslash, 95] = [backslash, backslash, 95]
   \<and> spec_escape [backslash, 95] = [backslash, backslash, backslash, 95]
   \<and> escape_markdown [backslash, 95] \<noteq> spec_escape [backslash, 95]"
  by (simp add: escape_markdown_Cons escape_markdown_Nil spec_escape_def
      escape_chars_def backslash_def)

lemma py_range_bound: "x \<in> set (py_range i stop step) \<Longrightarrow> x < stop"
proof (induction i stop step rule: py_range.induct)
  case (1 i stop step)
  then show ?case
    by (subst (asm) py_range.simps) (auto split: if_splits)
qed

lemma concat_slices:
  "0 < n \<Longrightarrow> stop = length s \<Longrightarrow>
     concat (map (\<lambda>i. py_slice s i (i + n)) (py_range i stop n)) = drop i s"
proof (induction i stop n rule: py_range.induct)
  case (1 i stop step)
  show ?case
  proof (cases "i < stop")
    case True
    have "take step (drop i s) @ drop (i + step) s = drop i s"
      using append_take_drop_id [of step "drop i s"] by (simp add: add.commute)
    with True 1 show ?thesis
      by (subst py_range.simps) (simp add: py_slice_def)
  next
    case False
    with 1 show ?thesis
      by (subst py_range.simps) simp
  qed
qed

lemma concat_chunks: "concat (chunks s) = s"
  using concat_slices [of 4000 "length s" s 0] by (simp add: chunks_def)

lemma upt_0_Suc_map: "[0..<Suc m] = 0 # map Suc [0..<m]"
proof -
  have "[0..<Suc m] = 0 # [Suc 0..<Suc m]"
    by (rule upt_conv_Cons) simp
  also have "[Suc 0..<Suc m] = map Suc [0..<m]"
    by (rule map_Suc_upt [symmetric])
  finally show ?thesis .
qed

lemma py_range_eq:
  "0 < n \<Longrightarrow> py_range i stop n = map (\<lambda>k. i + k * n) [0..<(stop + n - 1 - i) div n]"
proof (induction i stop n rule: py_range.induct)
  case (1 i stop step)
  show ?case
  proof (cases "i < stop")
    case True
    define m where "m = (stop + step - 1 - (i + step)) div step"
    have "stop + step - 1 - i = (stop + step - 1 - (i + step)) + step"
      using True "1.prems" by linarith
    then have "(stop + step - 1 - i) div step
        = ((stop + step - 1 - (i + step)) + step) div step"
      by (rule arg_cong)
    also have "\<dots> = Suc ((stop + step - 1 - (i + step)) div step)"
    proof -
      have "(b + step) div step = Suc (b div step)" for b
        using "1.prems" by (simp add: div_add_self2)
      then show ?thesis .
    qed
    finally have cnt: "(stop + step - 1 - i) div step = Suc m"
      unfolding m_def .
    have ih: "py_range (i + step) stop step = map (\<lambda>k. i + step + k * step) [0..<m]"
      unfolding m_def using "1.IH" True "1.prems" by blast
    have "py_range i stop step = i # py_range (i + step) stop step"
      using True "1.prems" by (subst py_range.simps) simp
    also have "\<dots> = i # map (\<lambda>k. i + step + k * step) [0..<m]"
      by (simp only: ih)
    also have "\<dots> = map (\<lambda>k. i + k * step) (0 # map Suc [0..<m])"
      by (simp add: o_def add.assoc)
    also have "\<dots> = map (\<lambda>k. i + k * step) [0..<Suc m]"
      by (simp only: upt_0_Suc_map)
    finally show ?thesis
      by (simp only: cnt)
  next
    case False
    then have "stop + step - 1 - i < step"
      using "1.prems" by linarith
    then have "(stop + step - 1 - i) div step = 0"
      by (rule div_less)
    moreover have "py_range i stop step = []"
      using False by (subst py_range.simps) simp
    ultimately show ?thesis by simp
  qed
qed

lemma length_chunks: "length (chunks s) = (length s + 3999) div 4000"
  by (simp add: chunks_def py_range_eq)

lemma nth_chunks:
  "k < length (chunks s) \<Longrightarrow> chunks s ! k = take 4000 (drop (4000 * k) s)"
  by (simp add: chunks_def py_range_eq py_slice_def mult.commute)

lemma chunk_bounds: "c \<in> set (chunks s) \<Longrightarrow> length c \<le> 4000 \<and> c \<noteq> []"
  by (auto simp: chunks_def py_slice_def dest: py_range_bound)

lemma sent_texts_send_chunks: "sent_texts (send_chunks bot_call k cs) = cs"
  by (induction cs arbitrary: k) (auto split: option.splits)

lemma sent_texts_send_telegram_message:
  "sent_texts (send_telegram_message bot_call message) = chunks (escape_markdown message)"
  by (simp add: send_telegram_message_def sent_texts_send_chunks)

text \<open>
  C7. Whatever the outcomes of the sends, the texts passed to \<open>bot.send_message\<close>
  are, in order, the contiguous slices of 4000 characters of the escaped message: each
  has at most 4000 characters, none is empty, their concatenation is the escaped
  message, and there are \<open>\<lceil>n / 4000\<rceil>\<close> of them for \<open>n\<close> escaped characters: exactly 3
  for 9000.
\<close>

theorem send_telegram_message_chunks:
  "sent_texts (send_telegram_message bot_call message) = chunks (escape_markdown message)
   \<and> concat (sent_texts (send_telegram_message bot_call message)) = escape_markdown message
   \<and> (\<forall>c \<in> set (sent_texts (send_telegram_message bot_call message)).
          length c \<le> 4000 \<and> c \<noteq> [])
   \<and> (\<forall>k < length (sent_texts (send_telegram_message bot_call message)).
          sent_texts (send_telegram_message bot_call message) ! k
            = take 4000 (drop (4000 * k) (escape_markdown message)))
   \<and> length (sent_texts (send_telegram_message bot_call message))
        = (length (escape_markdown message) + 3999) div 4000
   \<and> (length (escape_markdown message) = 9000 \<longrightarrow>
        length (sent_texts (send_telegram_message bot_call message)) = 3)"
proof -
  show ?thesis
    unfolding sent_texts_send_telegram_message
    using chunk_bounds [of _ "escape_markdown message"]
    by (auto simp: concat_chunks length_chunks nth_chunks)
qed

text \<open>
  A message of 9000 letters \<open>a\<close>, with a second send that fails: three calls, of
  4000, 4000 and 1000 characters.
\<close>

theorem send_telegram_message_chunks_witness:
  "length (escape_markdown (replicate 9000 97)) = 9000
   \<and> length (sent_texts (send_telegram_message (\<lambda>k. if k = 1 then Some TelegramError else None)
        (replicate 9000 97))) = 3
   \<and> sent_texts (send_telegram_message (\<lambda>k. if k = 1 then Some TelegramError else None)
        (replicate 9000 97))
      = [replicate 4000 97, replicate 4000 97, replicate 1000 97]"
proof -
  let ?bot = "\<lambda>k::nat. if k = 1 then Some TelegramError else None"
  let ?m = "replicate 9000 (97::nat)"
  let ?cs = "sent_texts (send_telegram_message ?bot ?m)"
  have plain: "escape_markdown ?m = ?m"
    by (rule escape_markdown_plain) (simp add: escape_chars_def)
  note th = send_telegram_message_chunks [of ?bot ?m, unfolded plain]
  have "length ?m = 9000" by simp
  with th have len: "length ?cs = 3" by blast
  from th have "?cs = chunks ?m" by blast
  also have "\<dots> = [replicate 4000 97, replicate 4000 97, replicate 1000 97]"
    by (simp add: chunks_def py_range.simps py_slice_def)
  finally show ?thesis using plain len by simp
qed

lemma underscore_not_escaped_form: "escape_markdown m \<noteq> [95]"
proof (cases m)
  case Nil
  then show ?thesis by (simp add: escape_markdown_Nil)
next
  case (Cons c cs)
  then show ?thesis
    by (auto simp: escape_markdown_Cons backslash_def escape_chars_def)
qed

lemma split_pair_chunks:
  "chunks (escape_markdown (replicate 3999 97 @ [95])) = [replicate 3999 97 @ [backslash], [95]]"
proof -
  have plain: "escape_markdown (replicate 3999 97) = replicate 3999 97"
    by (rule escape_markdown_plain) (simp add: escape_chars_def)
  have esc: "escape_markdown (replicate 3999 97 @ [95]) = replicate 3999 97 @ [backslash, 95]"
    by (simp add: escape_markdown_append plain escape_markdown_Cons escape_markdown_Nil
        escape_chars_def)
  have rng: "py_range 0 4001 4000 = [0, 4000]"
    by (simp add: py_range.simps)
  show ?thesis
    unfolding esc by (simp add: chunks_def rng py_slice_def)
qed

text \<open>
  C10. There is a message without any backslash whose delivery has a chunk that ends
  in the backslash of an escape pair, the escaped character starting the next chunk:
  3999 letters \<open>a\<close> and an underscore. The next chunk, a bare underscore, is not the
  escaping of any text, while the concatenation of the chunks is the escaped message.
\<close>

theorem chunk_boundary_splits_escape_pair:
  "\<exists>message k.
     backslash \<notin> set message
     \<and> Suc k < length (sent_texts (send_telegram_message bot_call message))
     \<and> sent_texts (send_telegram_message bot_call message) ! k \<noteq> []
     \<and> last (sent_texts (send_telegram_message bot_call message) ! k) = backslash
     \<and> sent_texts (send_telegram_message bot_call message) ! Suc k \<noteq> []
     \<and> hd (sent_texts (send_telegram_message bot_call message) ! Suc k) \<in> set escape_chars
     \<and> (\<nexists>m. escape_markdown m = sent_texts (send_telegram_message bot_call message) ! Suc k)
     \<and> concat (sent_texts (send_telegram_message bot_call message)) = escape_markdown message"
proof -
  let ?m = "replicate 3999 (97::nat) @ [95]"
  have sent: "sent_texts (send_telegram_message bot_call ?m)
      = [replicate 3999 97 @ [backslash], [95]]"
    unfolding sent_texts_send_telegram_message by (rule split_pair_chunks)
  have cat: "concat (sent_texts (send_telegram_message bot_call ?m)) = escape_markdown ?m"
    unfolding sent_texts_send_telegram_message by (rule concat_chunks)
  have "backslash \<notin> set ?m"
    by (simp add: backslash_def)
  moreover have "(95::nat) \<in> set escape_chars"
    by (simp add: escape_chars_def)
  ultimately show ?thesis
    using underscore_not_escaped_form cat
    by (intro exI [of _ ?m] exI [of _ 0]) (simp add: sent)
qed

section \<open>Properties of the fetcher and the poll loop\<close>

lemma get_latest_commit_failure:
  "get_latest_commit (NoResponse f) = Inr None"
  "400 \<le> code \<Longrightarrow> code < 600 \<Longrightarrow> get_latest_commit (Response code body) = Inr None"
  "get_latest_commit (Response code None) = Inr None"
  by (cases f; simp add: get_latest_commit_def and_then_def raise_for_status_def response_json_def)+

text \<open>
  C4 (the code fails the claim). A response with status 200 whose body is the empty
  array makes \<open>response.json()[0]\<close> raise IndexError, which is not a RequestException:
  the exception leaves \<open>get_latest_commit\<close>, which returns neither a commit nor
  \<open>None\<close>.
\<close>

theorem get_latest_commit_empty_list:
  "get_latest_commit (Response 200 (Some (JsonArray []))) = Inl IndexError
   \<and> \<not> is_RequestException IndexError"
  by (simp add: get_latest_commit_def and_then_def raise_for_status_def response_json_def)

text \<open>
  The detail request answered by an error document, a JSON object without \<open>files\<close>,
  gives the empty list of changed files, whatever the status code.
\<close>

lemma commit_files_of_error_document:
  "commit_files_of (Response code (Some (JsonObject None))) = Inr []"
  by (simp add: commit_files_of_def and_then_def response_json_def)

text \<open>
  C5 (the code fails the claim). When the detail request gets no response,
  \<open>requests.get\<close> raises ConnectionError outside any \<open>try\<close>: the exception leaves the
  loop body and the pass, no empty list is substituted, the commit is neither
  classified nor notified, and the wrapper logs the exception and restarts.
\<close>

theorem detail_failure_aborts_cycle:
  "visit_repo lower_ascii (\<lambda>m. ()) (\<lambda>a. Inl RuntimeError) (ustr ''a/b'')
      ((commit_with_sha (ustr ''222'')) \<lparr>details_answer := NoResponse ConnectionFailed\<rparr>)
      (Map.empty, [])
     = Inl ConnectionError
   \<and> poll_cycle lower_ascii (\<lambda>m. ()) (\<lambda>a. Inl RuntimeError) [ustr ''a/b'']
      \<lparr>answers = (\<lambda>i. (commit_with_sha (ustr ''222''))
                      \<lparr>details_answer := NoResponse ConnectionFailed\<rparr>),
       bot_outcome = (\<lambda>k. None)\<rparr> Map.empty
     = \<lparr>tracker_after = Map.empty, batch = [], raised = Some ConnectionError,
        effects = [LogError ConnectionError, Sleep 10]\<rparr>"
  by (simp add: visit_repo_def poll_cycle_def commit_with_sha_def get_latest_commit_def
      and_then_def raise_for_status_def response_json_def commit_files_of_def)

lemma visit_repo_fetched:
  assumes "get_latest_commit (commits_answer v) = Inr (Some c)"
    and "commit_files_of (details_answer v) = Inr fs"
  shows "visit_repo lower polarity summarizer repo v (lc, msgs) =
     Inr (if is_new lc repo (c_sha c)
          then (record_sha lc repo (c_sha c),
                msgs @ [\<lparr>n_repo = repo, n_sha = c_sha c,
                  n_text = format_message repo
                    (fst (analyze_commit lower polarity summarizer (c_message c) fs))
                    (fst (snd (analyze_commit lower polarity summarizer (c_message c) fs)))
                    (snd (snd (analyze_commit lower polarity summarizer (c_message c) fs)))
                    (c_html_url c)\<rparr>])
          else (lc, msgs))"
  using assms by (simp add: visit_repo_def and_then_def split: prod.splits)

lemma visit_repo_cases:
  assumes "visit_repo lower polarity summarizer repo v (lc, msgs) = Inr (lc', msgs')"
  shows "(lc' = lc \<and> msgs' = msgs)
    \<or> (\<exists>n. n_repo n = repo \<and> is_new lc repo (n_sha n)
          \<and> lc' = record_sha lc repo (n_sha n) \<and> msgs' = msgs @ [n])"
proof (cases "get_latest_commit (commits_answer v)")
  case (Inl e)
  with assms show ?thesis by (simp add: visit_repo_def and_then_def)
next
  case (Inr latest)
  show ?thesis
  proof (cases latest)
    case None
    with Inr assms show ?thesis by (simp add: visit_repo_def and_then_def)
  next
    case (Some c)
    show ?thesis
    proof (cases "commit_files_of (details_answer v)")
      case (Inl e)
      with Inr Some assms show ?thesis by (simp add: visit_repo_def and_then_def)
    next
      case fs: (Inr fs)
      from Inr Some have "get_latest_commit (commits_answer v) = Inr (Some c)" by simp
      from visit_repo_fetched [OF this fs, of lower polarity summarizer repo lc msgs] assms
      show ?thesis by (auto split: if_splits)
    qed
  qed
qed

lemma tracked_Nil: "tracked lc []"
  by (simp add: tracked_def shas_for_def)

lemma tracked_append:
  assumes "tracked lc ns" and "is_new lc (n_repo n) (n_sha n)"
  shows "tracked (record_sha lc (n_repo n) (n_sha n)) (ns @ [n])"
  unfolding tracked_def
proof (intro allI conjI impI)
  fix repo
  from assms(1) have d: "distinct_adj (shas_for repo ns)"
    and l: "shas_for repo ns \<noteq> [] \<Longrightarrow> lc repo = Some (last (shas_for repo ns))"
    by (simp_all add: tracked_def)
  show "distinct_adj (shas_for repo (ns @ [n]))"
  proof (cases "n_repo n = repo")
    case True
    with assms(2) l have "shas_for repo ns = [] \<or> last (shas_for repo ns) \<noteq> n_sha n"
      by (auto simp: is_new_def)
    with d True show ?thesis
      by (auto simp: shas_for_def distinct_adj_append_iff)
  next
    case False
    with d show ?thesis by (simp add: shas_for_def)
  qed
  assume "shas_for repo (ns @ [n]) \<noteq> []"
  then show "record_sha lc (n_repo n) (n_sha n) repo = Some (last (shas_for repo (ns @ [n])))"
    using l by (cases "n_repo n = repo") (auto simp: shas_for_def record_sha_def)
qed

lemma process_repos_tracked:
  assumes "tracked lc (pre @ msgs)"
    and "process_repos lower polarity summarizer rvs (lc, msgs) = ((lc', msgs'), e)"
  shows "tracked lc' (pre @ msgs')"
  using assms
proof (induction rvs arbitrary: lc msgs)
  case Nil
  then show ?case by simp
next
  case (Cons rv rvs)
  obtain repo v where rv: "rv = (repo, v)" by (cases rv)
  show ?case
  proof (cases "visit_repo lower polarity summarizer repo v (lc, msgs)")
    case (Inl x)
    with Cons.prems rv show ?thesis by simp
  next
    case (Inr st)
    obtain lc1 msgs1 where st: "st = (lc1, msgs1)" by (cases st)
    from Inr st have step: "visit_repo lower polarity summarizer repo v (lc, msgs) = Inr (lc1, msgs1)"
      by simp
    have "tracked lc1 (pre @ msgs1)"
      using visit_repo_cases [OF step]
    proof
      assume "lc1 = lc \<and> msgs1 = msgs"
      with Cons.prems(1) show ?thesis by simp
    next
      assume "\<exists>n. n_repo n = repo \<and> is_new lc repo (n_sha n)
          \<and> lc1 = record_sha lc repo (n_sha n) \<and> msgs1 = msgs @ [n]"
      then obtain n where n: "n_repo n = repo" "is_new lc repo (n_sha n)"
        "lc1 = record_sha lc repo (n_sha n)" "msgs1 = msgs @ [n]" by blast
      from tracked_append [OF Cons.prems(1), of n] n show ?thesis by simp
    qed
    moreover from Cons.prems(2) rv step
    have "process_repos lower polarity summarizer rvs (lc1, msgs1) = ((lc', msgs'), e)"
      by simp
    ultimately show ?thesis by (rule Cons.IH)
  qed
qed

lemma poll_cycle_tracked:
  assumes "tracked lc pre"
  shows "tracked (tracker_after (poll_cycle lower polarity summarizer REPOS env lc))
     (pre @ batch (poll_cycle lower polarity summarizer REPOS env lc))"
proof -
  obtain lc' msgs' e where p: "process_repos lower polarity summarizer
      (zip REPOS (map (answers env) [0..<length REPOS])) (lc, []) = ((lc', msgs'), e)"
    by (metis surj_pair)
  from assms have "tracked lc (pre @ [])" by simp
  from process_repos_tracked [OF this p] have "tracked lc' (pre @ msgs')" .
  then show ?thesis
    by (cases e) (simp_all add: poll_cycle_def p)
qed

lemma track_repos_tracked:
  assumes "tracked lc pre"
  shows "tracked (fst (track_repos lower polarity summarizer REPOS envs lc))
     (pre @ snd (track_repos lower polarity summarizer REPOS envs lc))"
  using assms
proof (induction envs arbitrary: lc pre)
  case Nil
  then show ?case by simp
next
  case (Cons env envs)
  let ?r = "poll_cycle lower polarity summarizer REPOS env lc"
  from poll_cycle_tracked [OF Cons.prems]
  have "tracked (tracker_after ?r) (pre @ batch ?r)" .
  from Cons.IH [OF this] show ?case
    by (simp add: Let_def case_prod_beta)
qed

text \<open>
  C2, amended. Within one run, for every repository, the shas of the notifications
  appended for it never repeat consecutively, for every sequence of answers: a
  notification for (repo, sha) is appended only when sha differs from the sha last
  recorded for the repository.
\<close>

theorem no_consecutive_repeat:
  "distinct_adj (shas_for repo
     (snd (track_repos lower polarity summarizer REPOS envs last_commits)))"
proof -
  have "tracked (fst (track_repos lower polarity summarizer REPOS envs last_commits))
     ([] @ snd (track_repos lower polarity summarizer REPOS envs last_commits))"
    by (rule track_repos_tracked [OF tracked_Nil])
  then show ?thesis by (simp add: tracked_def)
qed

lemma scenario_cycle:
  "tracker_after (poll_cycle lower polarity summarizer [repo]
       \<lparr>answers = (\<lambda>i. commit_with_sha s), bot_outcome = b\<rparr> lc)
     = (if is_new lc repo s then record_sha lc repo s else lc)
   \<and> notified_pairs (batch (poll_cycle lower polarity summarizer [repo]
       \<lparr>answers = (\<lambda>i. commit_with_sha s), bot_outcome = b\<rparr> lc))
     = (if is_new lc repo s then [(repo, s)] else [])"
proof -
  let ?c = "\<lparr>c_sha = s, c_message = ustr ''fix vulnerability in parser'',
          c_html_url = ustr ''https://github.com/a/b/commit/'' @ s,
          c_url = ustr ''https://api.github.com/repos/a/b/commits/'' @ s\<rparr>"
  have g: "get_latest_commit (commits_answer (commit_with_sha s)) = Inr (Some ?c)"
    by (simp add: commit_with_sha_def get_latest_commit_def and_then_def raise_for_status_def
        response_json_def)
  have f: "commit_files_of (details_answer (commit_with_sha s)) = Inr []"
    by (simp add: commit_with_sha_def commit_files_of_def and_then_def response_json_def)
  show ?thesis
    by (simp add: poll_cycle_def visit_repo_fetched [OF g f] notified_pairs_def)
qed

text \<open>
  C2 fails on the code when the latest commit of a repository is 111, then 222, then
  111 again in three passes: the pair (a/b, 111) is notified twice.
\<close>

theorem repeated_sha_counterexample:
  "notified_pairs (snd (track_repos lower_ascii (\<lambda>m. ()) (\<lambda>a. Inl RuntimeError) [ustr ''a/b'']
      [\<lparr>answers = (\<lambda>i. commit_with_sha (ustr ''111'')), bot_outcome = (\<lambda>k. None)\<rparr>,
       \<lparr>answers = (\<lambda>i. commit_with_sha (ustr ''222'')), bot_outcome = (\<lambda>k. None)\<rparr>,
       \<lparr>answers = (\<lambda>i. commit_with_sha (ustr ''111'')), bot_outcome = (\<lambda>k. None)\<rparr>]
      Map.empty))
     = [(ustr ''a/b'', ustr ''111''), (ustr ''a/b'', ustr ''222''), (ustr ''a/b'', ustr ''111'')]
   \<and> \<not> distinct (notified_pairs (snd (track_repos lower_ascii (\<lambda>m. ()) (\<lambda>a. Inl RuntimeError)
      [ustr ''a/b'']
      [\<lparr>answers = (\<lambda>i. commit_with_sha (ustr ''111'')), bot_outcome = (\<lambda>k. None)\<rparr>,
       \<lparr>answers = (\<lambda>i. commit_with_sha (ustr ''222'')), bot_outcome = (\<lambda>k. None)\<rparr>,
       \<lparr>answers = (\<lambda>i. commit_with_sha (ustr ''111'')), bot_outcome = (\<lambda>k. None)\<rparr>]
      Map.empty)))"
proof -
  have ne: "ustr ''111'' \<noteq> ustr ''222''"
    by (simp add: ustr_def)
  have pairs_append: "notified_pairs (xs @ ys) = notified_pairs xs @ notified_pairs ys" for xs ys
    by (simp add: notified_pairs_def)
  have pairs_Nil: "notified_pairs [] = []"
    by (simp add: notified_pairs_def)
  have "notified_pairs (snd (track_repos lower_ascii (\<lambda>m. ()) (\<lambda>a. Inl RuntimeError) [ustr ''a/b'']
      [\<lparr>answers = (\<lambda>i. commit_with_sha (ustr ''111'')), bot_outcome = (\<lambda>k. None)\<rparr>,
       \<lparr>answers = (\<lambda>i. commit_with_sha (ustr ''222'')), bot_outcome = (\<lambda>k. None)\<rparr>,
       \<lparr>answers = (\<lambda>i. commit_with_sha (ustr ''111'')), bot_outcome = (\<lambda>k. None)\<rparr>]
      Map.empty))
     = [(ustr ''a/b'', ustr ''111''), (ustr ''a/b'', ustr ''222''), (ustr ''a/b'', ustr ''111'')]"
    using ne
    by (simp add: Let_def case_prod_beta pairs_append pairs_Nil scenario_cycle is_new_def
        record_sha_def)
  then show ?thesis by simp
qed

text \<open>
  The end-to-end scenario of the specification: \<open>a/b\<close> was last seen at 111, the
  latest commit is 222 with the message "fix vulnerability in parser" and no changed
  file. The commit is classified Bearish, the tracker moves to 222 and one notification
  is queued.
\<close>

lemma scenario_analysis:
  "analyze_commit lower_ascii polarity (\<lambda>a. Inr [[(ustr ''summary_text'', ustr ''Parser fix'')]])
      (ustr ''fix vulnerability in parser'') []
     = (ustr ''Parser fix'', label_bearish, explanation_bearish)"
  by (simp add: analyze_commit_def summarize_text_def summarizer_try_def getitem_def
      bullish_terms_def bearish_terms_def lower_ascii_def ustr_def)

lemma end_to_end_scenario:
  "tracker_after (poll_cycle lower_ascii polarity
      (\<lambda>a. Inr [[(ustr ''summary_text'', ustr ''Parser fix'')]]) [ustr ''a/b'']
      \<lparr>answers = (\<lambda>i. commit_with_sha (ustr ''222'')), bot_outcome = (\<lambda>k. None)\<rparr>
      [ustr ''a/b'' \<mapsto> ustr ''111''])
     = [ustr ''a/b'' \<mapsto> ustr ''222'']
   \<and> batch (poll_cycle lower_ascii polarity
      (\<lambda>a. Inr [[(ustr ''summary_text'', ustr ''Parser fix'')]]) [ustr ''a/b'']
      \<lparr>answers = (\<lambda>i. commit_with_sha (ustr ''222'')), bot_outcome = (\<lambda>k. None)\<rparr>
      [ustr ''a/b'' \<mapsto> ustr ''111''])
     = [\<lparr>n_repo = ustr ''a/b'', n_sha = ustr ''222'',
        n_text = format_message (ustr ''a/b'') (ustr ''Parser fix'') label_bearish
          explanation_bearish (ustr ''https://github.com/a/b/commit/222'')\<rparr>]"
proof -
  let ?c = "\<lparr>c_sha = ustr ''222'', c_message = ustr ''fix vulnerability in parser'',
          c_html_url = ustr ''https://github.com/a/b/commit/'' @ ustr ''222'',
          c_url = ustr ''https://api.github.com/repos/a/b/commits/'' @ ustr ''222''\<rparr>"
  have g: "get_latest_commit (commits_answer (commit_with_sha (ustr ''222''))) = Inr (Some ?c)"
    by (simp add: commit_with_sha_def get_latest_commit_def and_then_def raise_for_status_def
        response_json_def)
  have f: "commit_files_of (details_answer (commit_with_sha (ustr ''222''))) = Inr []"
    by (simp add: commit_with_sha_def commit_files_of_def and_then_def response_json_def)
  have new: "is_new [ustr ''a/b'' \<mapsto> ustr ''111''] (ustr ''a/b'') (ustr ''222'')"
    by (simp add: is_new_def ustr_def)
  have url: "ustr ''https://github.com/a/b/commit/'' @ ustr ''222''
      = ustr ''https://github.com/a/b/commit/222''"
    by (simp add: ustr_def)
  show ?thesis
    by (simp add: poll_cycle_def visit_repo_def and_then_def g f new scenario_analysis
        record_sha_def url)
qed

end
